theory Spec2Isabelle
  imports Complex_Main
begin

section \<open>The optimizer adapter of treex/optimizer.py\<close>

text \<open>
  The class \<^verbatim>\<open>Optimizer\<close> wraps a gradient transformation of the optax library (a pair of
  functions \<^verbatim>\<open>init\<close> and \<^verbatim>\<open>update\<close>) in an object that carries the optimizer state as
  a field. Objects are mutable and are reached by reference, so the embedding has an
  explicit store: a list of objects, an object's address being its index. Every method
  takes the store and returns its result together with the store it leaves behind. An
  exception is a value: a method that raises returns \<open>Inl\<close> of the exception, and the
  store it returns is the store at the moment of the raise.
\<close>

subsection \<open>Exceptions\<close>

text \<open>
  The two exceptions the adapter raises itself are \<^verbatim>\<open>AssertionError\<close> (the
  \<^verbatim>\<open>assert\<close> statement) and \<^verbatim>\<open>ValueError\<close> with a message. Whatever the wrapped
  library or the tree helpers raise is an exception of the same universe.
\<close>

datatype error = AssertionError | ValueError string | OtherError string

subsection \<open>Values and collaborators\<close>

text \<open>
  A Python argument of the adapter is \<^verbatim>\<open>None\<close> or a tree; \<open>'v\<close> is the type of trees and
  \<open>'v option\<close> the type of arguments. The adapter never looks inside a tree: it hands
  trees to the functions below.

  \<^verbatim>\<open>optax.GradientTransformation\<close> is a named tuple of two functions. What they return
  as the optimizer state is again any Python value: \<^verbatim>\<open>None\<close> or a state of type \<open>'s\<close>.
  The adapter stores it as it comes. The state that \<^verbatim>\<open>update\<close> receives is never \<^verbatim>\<open>None\<close>,
  for the adapter checks it first.
\<close>

record ('v, 's) GradientTransformation =
  init_fn :: "'v option \<Rightarrow> error + 's option"
  update_fn :: "'v option \<Rightarrow> 's \<Rightarrow> 'v option \<Rightarrow> error + ('v option \<times> 's option)"

text \<open>
  The functions the adapter calls and that are defined elsewhere are parameters of the
  embedding: \<^verbatim>\<open>annotation_map\<close> (always called with \<^verbatim>\<open>lambda _: types.OptState\<close>) and
  \<^verbatim>\<open>module_update\<close> of \<^verbatim>\<open>treex.tree_object\<close>, and \<^verbatim>\<open>optax.apply_updates\<close>. Each of them
  may raise.
\<close>

record 'v collaborators =
  annotation_map :: "'v option \<Rightarrow> error + 'v option"
  module_update :: "'v option \<Rightarrow> 'v option \<Rightarrow> error + 'v option"
  optax_apply_updates :: "'v option \<Rightarrow> 'v option \<Rightarrow> error + 'v option"

subsection \<open>The adapter object and the store\<close>

text \<open>
  The fields of an \<^verbatim>\<open>Optimizer\<close>: \<^verbatim>\<open>opt_state\<close>, \<^verbatim>\<open>optimizer\<close> and \<^verbatim>\<open>_initialized\<close>
  (written \<open>is_initialized\<close>; the class attribute gives it the default \<^verbatim>\<open>False\<close>).
\<close>

record ('v, 's) Optimizer =
  opt_state :: "'s option"
  optimizer :: "('v, 's) GradientTransformation"
  is_initialized :: bool

type_synonym ('v, 's) store = "('v, 's) Optimizer list"

text \<open>The property \<^verbatim>\<open>initialized\<close> returns \<^verbatim>\<open>self._initialized\<close>.\<close>

definition initialized :: "('v, 's) Optimizer \<Rightarrow> bool" where
  "initialized self = is_initialized self"

text \<open>
  \<^verbatim>\<open>Optimizer.__init__(self, optimizer)\<close>: a new object with \<^verbatim>\<open>opt_state = None\<close> and the
  given transformation. The result is the address of the new object.
\<close>

definition new_Optimizer ::
  "('v, 's) store \<Rightarrow> ('v, 's) GradientTransformation \<Rightarrow> nat \<times> ('v, 's) store" where
  "new_Optimizer h tx =
     (length h, h @ [\<lparr>opt_state = None, optimizer = tx, is_initialized = False\<rparr>])"

text \<open>
  Modelled from the spec: \<^verbatim>\<open>TreeObject.copy\<close> of \<^verbatim>\<open>treex.tree_object\<close>, which is not among
  the sources. The spec has the base type provide "value-copy" and has \<^verbatim>\<open>init\<close> return
  "a fresh copy": a new object whose fields have the values of the receiver's.
\<close>

definition copy :: "('v, 's) store \<Rightarrow> nat \<Rightarrow> nat \<times> ('v, 's) store" where
  "copy h self = (length h, h @ [h ! self])"

subsection \<open>\<^verbatim>\<open>Optimizer.init\<close>\<close>

text \<open>
  \<^verbatim>\<open>
  module = self.copy()
  params = annotation_map(lambda _: types.OptState, params)
  module.opt_state = module.optimizer.init(params)
  module._initialized = True
  return module
  \<close>
\<close>

definition init ::
  "'v collaborators \<Rightarrow> ('v, 's) store \<Rightarrow> nat \<Rightarrow> 'v option \<Rightarrow> (error + nat) \<times> ('v, 's) store" where
  "init ext h self params =
     (case copy h self of (module', h1) \<Rightarrow>
        (case annotation_map ext params of
           Inl e \<Rightarrow> (Inl e, h1)
         | Inr params' \<Rightarrow>
             (case init_fn (optimizer (h1 ! module')) params' of
                Inl e \<Rightarrow> (Inl e, h1)
              | Inr s \<Rightarrow>
                  (let h2 = h1[module' := (h1 ! module')\<lparr>opt_state := s\<rparr>];
                       h3 = h2[module' := (h2 ! module')\<lparr>is_initialized := True\<rparr>]
                   in (Inr module', h3)))))"

subsection \<open>\<^verbatim>\<open>Optimizer.apply_updates\<close>\<close>

text \<open>
  \<^verbatim>\<open>
  assert self.opt_state is not None
  if not return_updates and params is None:
      raise ValueError("params must be provided if updates are being applied")
  opt_grads = annotation_map(lambda _: types.OptState, grads)
  opt_params = annotation_map(lambda _: types.OptState, params)
  param_updates, self.opt_state = self.optimizer.update(opt_grads, self.opt_state, opt_params)
  if return_updates:
      output = param_updates
  else:
      output = optax.apply_updates(opt_params, param_updates)
  return module_update(grads, output)
  \<close>
  The state is stored as soon as the wrapped \<^verbatim>\<open>update\<close> has returned: an exception raised
  later leaves the new state in place.
\<close>

definition apply_updates ::
  "'v collaborators \<Rightarrow> ('v, 's) store \<Rightarrow> nat \<Rightarrow> 'v option \<Rightarrow> 'v option \<Rightarrow> bool
     \<Rightarrow> (error + 'v option) \<times> ('v, 's) store" where
  "apply_updates ext h self grads params return_updates =
     (case opt_state (h ! self) of
        None \<Rightarrow> (Inl AssertionError, h)
      | Some s \<Rightarrow>
          if \<not> return_updates \<and> params = None
          then (Inl (ValueError ''params must be provided if updates are being applied''), h)
          else
            (case annotation_map ext grads of
               Inl e \<Rightarrow> (Inl e, h)
             | Inr opt_grads \<Rightarrow>
                 (case annotation_map ext params of
                    Inl e \<Rightarrow> (Inl e, h)
                  | Inr opt_params \<Rightarrow>
                      (case update_fn (optimizer (h ! self)) opt_grads s opt_params of
                         Inl e \<Rightarrow> (Inl e, h)
                       | Inr (param_updates, s') \<Rightarrow>
                           (let h' = h[self := (h ! self)\<lparr>opt_state := s'\<rparr>]
                            in if return_updates
                               then (module_update ext grads param_updates, h')
                               else
                                 (case optax_apply_updates ext opt_params param_updates of
                                    Inl e \<Rightarrow> (Inl e, h')
                                  | Inr output \<Rightarrow> (module_update ext grads output, h')))))))"

subsection \<open>A concrete setting: plain dictionaries of numbers\<close>

text \<open>
  The scenarios below run the adapter on dictionaries from names to numbers, such as
  \<^verbatim>\<open>{"w": 0.0}\<close>, written as the list of their items.
\<close>

type_synonym pytree = "(string \<times> real) list"

text \<open>
  Modelled from the spec: \<^verbatim>\<open>annotation_map\<close> of \<^verbatim>\<open>treex.tree_object\<close>, which is not among
  the sources. The spec calls it "annotation remapping" of "state-annotated inputs"; a
  plain dictionary of numbers, like \<^verbatim>\<open>None\<close>, carries no annotation, so it comes back as
  it is.
\<close>

definition plain_annotation_map :: "pytree option \<Rightarrow> error + pytree option" where
  "plain_annotation_map t = Inr t"

text \<open>
  Modelled from the spec: \<^verbatim>\<open>module_update\<close> of \<^verbatim>\<open>treex.tree_object\<close>, which is not among
  the sources: the "tree-reconstruction step", whose result "mirrors the tree shape" of
  its first argument and carries the leaves of the second. On dictionaries: the keys
  of the first with the values of the second, an error when the numbers of leaves differ.
\<close>

definition plain_module_update :: "pytree option \<Rightarrow> pytree option \<Rightarrow> error + pytree option" where
  "plain_module_update t out =
     (case (t, out) of
        (Some kvs, Some kus) \<Rightarrow>
          if length kvs = length kus
          then Inr (Some (map2 (\<lambda>(k, _) (_, u). (k, u)) kvs kus))
          else Inl (OtherError ''tree structures differ'')
      | (None, None) \<Rightarrow> Inr None
      | _ \<Rightarrow> Inl (OtherError ''tree structures differ''))"

text \<open>
  \<^verbatim>\<open>optax.apply_updates(params, updates)\<close> of the wrapped library, as the spec gives it:
  "elementwise addition per leaf".
\<close>

definition plain_apply_updates :: "pytree option \<Rightarrow> pytree option \<Rightarrow> error + pytree option" where
  "plain_apply_updates params updates =
     (case (params, updates) of
        (Some kps, Some kus) \<Rightarrow>
          if map fst kps = map fst kus
          then Inr (Some (map2 (\<lambda>(k, p) (_, u). (k, p + u)) kps kus))
          else Inl (OtherError ''tree structures differ'')
      | _ \<Rightarrow> Inl (OtherError ''tree structures differ''))"

definition plain :: "pytree collaborators" where
  "plain = \<lparr>annotation_map = plain_annotation_map,
            module_update = plain_module_update,
            optax_apply_updates = plain_apply_updates\<rparr>"

text \<open>
  A transformation equivalent to plain gradient descent with a fixed step size: it has
  no state (its state is the empty tuple, before and after), and its update scales
  every gradient by the negated step size.
\<close>

definition gradient_descent :: "real \<Rightarrow> (pytree, unit) GradientTransformation" where
  "gradient_descent step_size =
     \<lparr>init_fn = (\<lambda>params. Inr (Some ())),
      update_fn = (\<lambda>grads s params.
         Inr (map_option (map (\<lambda>(k, g). (k, - step_size * g))) grads, Some s))\<rparr>"

text \<open>
  A transformation that keeps no state either, and says so with \<^verbatim>\<open>None\<close>: its \<^verbatim>\<open>init\<close>
  returns \<^verbatim>\<open>None\<close>, its \<^verbatim>\<open>update\<close> returns the gradients and \<^verbatim>\<open>None\<close>.
\<close>

definition stateless_None :: "(pytree, unit) GradientTransformation" where
  "stateless_None =
     \<lparr>init_fn = (\<lambda>params. Inr None),
      update_fn = (\<lambda>grads s params. Inr (grads, None))\<rparr>"

text \<open>
  The objects of the scenarios: a new adapter around gradient descent, the store after
  \<^verbatim>\<open>init({"w": 0.0})\<close> on it, and a new adapter around the transformation above.
\<close>

definition scenario_new :: "(pytree, unit) store" where
  "scenario_new = snd (new_Optimizer [] (gradient_descent (1 / 2)))"

definition scenario_ready :: "(pytree, unit) store" where
  "scenario_ready = snd (init plain scenario_new 0 (Some [(''w'', 0)]))"

definition scenario_None :: "(pytree, unit) store" where
  "scenario_None = snd (new_Optimizer [] stateless_None)"

subsection \<open>Sequences of calls\<close>

text \<open>
  A program that uses the adapter constructs objects and calls the two methods on
  objects it holds. \<open>run\<close> executes such a sequence from the empty store and returns the
  store it ends with. A call on an address that holds no object is not a call of the
  program and is skipped. When \<^verbatim>\<open>init\<close> raises after it has made its copy, the copy stays
  behind in the store.
\<close>

datatype ('v, 's) call =
    Construct "('v, 's) GradientTransformation"
  | Init nat "'v option"
  | Apply_updates nat "'v option" "'v option" bool

fun step :: "'v collaborators \<Rightarrow> ('v, 's) store \<Rightarrow> ('v, 's) call \<Rightarrow> ('v, 's) store" where
  "step ext h (Construct tx) = snd (new_Optimizer h tx)"
| "step ext h (Init self params) =
     (if self < length h then snd (init ext h self params) else h)"
| "step ext h (Apply_updates self grads params return_updates) =
     (if self < length h
      then snd (apply_updates ext h self grads params return_updates)
      else h)"

definition run :: "'v collaborators \<Rightarrow> ('v, 's) call list \<Rightarrow> ('v, 's) store" where
  "run ext cs = foldl (step ext) [] cs"

text \<open>
  A wrapped transformation keeps a state when neither of its functions returns \<^verbatim>\<open>None\<close>
  for the state, as the transformations of the optax library do (their states are named
  tuples).
\<close>

definition keeps_state :: "('v, 's) GradientTransformation \<Rightarrow> bool" where
  "keeps_state tx =
     ((\<forall>params. init_fn tx params \<noteq> Inr None) \<and>
      (\<forall>grads s params updates. update_fn tx grads s params \<noteq> Inr (updates, None)))"

text \<open>The two invariants of a store that the sequences of calls keep.\<close>

definition uninitialized_without_state :: "('v, 's) store \<Rightarrow> bool" where
  "uninitialized_without_state h =
     (\<forall>a < length h. \<not> is_initialized (h ! a) \<longrightarrow> opt_state (h ! a) = None)"

definition initialized_with_state :: "('v, 's) store \<Rightarrow> bool" where
  "initialized_with_state h =
     (\<forall>a < length h. keeps_state (optimizer (h ! a)) \<and>
        (is_initialized (h ! a) \<longrightarrow> opt_state (h ! a) \<noteq> None))"

section \<open>Properties\<close>

subsection \<open>Auxiliary facts\<close>

lemma scenario_new_eq:
  "scenario_new =
     [\<lparr>opt_state = None, optimizer = gradient_descent (1 / 2), is_initialized = False\<rparr>]"
  by (simp add: scenario_new_def new_Optimizer_def)

lemma scenario_None_eq:
  "scenario_None = [\<lparr>opt_state = None, optimizer = stateless_None, is_initialized = False\<rparr>]"
  by (simp add: scenario_None_def new_Optimizer_def)

lemma scenario_ready_eq:
  "scenario_ready =
     [\<lparr>opt_state = None, optimizer = gradient_descent (1 / 2), is_initialized = False\<rparr>,
      \<lparr>opt_state = Some (), optimizer = gradient_descent (1 / 2), is_initialized = True\<rparr>]"
  by (simp add: scenario_ready_def scenario_new_eq init_def copy_def plain_def
      plain_annotation_map_def gradient_descent_def)

lemma plain_simps:
  "annotation_map plain t = Inr t"
  "module_update plain t out = plain_module_update t out"
  "optax_apply_updates plain t out = plain_apply_updates t out"
  by (simp_all add: plain_def plain_annotation_map_def)

lemma gradient_descent_update:
  "update_fn (gradient_descent step_size) (Some [(k, g)]) s params =
     Inr (Some [(k, - step_size * g)], Some s)"
  by (simp add: gradient_descent_def)

lemma gradient_descent_init: "init_fn (gradient_descent step_size) params = Inr (Some ())"
  by (simp add: gradient_descent_def)

lemma keeps_state_gradient_descent: "keeps_state (gradient_descent step_size)"
  by (simp add: keeps_state_def gradient_descent_def)

text \<open>
  On dictionaries, the reconstruction step hands back the tree it is given when that
  tree has the keys of the template, and the update rule adds leaf by leaf.
\<close>

lemma map2_keys_values:
  "map fst kvs = map fst kus \<Longrightarrow> map2 (\<lambda>(k, _) (_, u). (k, u)) kvs kus = kus"
proof (induction kvs arbitrary: kus)
  case Nil
  then show ?case by simp
next
  case (Cons kv kvs)
  then show ?case by (cases kus) (auto split: prod.splits)
qed

lemma plain_module_update_same_keys:
  "map fst kvs = map fst kus \<Longrightarrow> module_update plain (Some kvs) (Some kus) = Inr (Some kus)"
proof -
  assume k: "map fst kvs = map fst kus"
  then have "length kvs = length kus" using map_eq_imp_length_eq by blast
  with k show ?thesis
    by (simp add: plain_simps plain_module_update_def map2_keys_values)
qed

lemma keeps_state_init: "keeps_state tx \<Longrightarrow> init_fn tx params = Inr s \<Longrightarrow> s \<noteq> None"
  unfolding keeps_state_def by (cases s) blast+

lemma keeps_state_update:
  "keeps_state tx \<Longrightarrow> update_fn tx grads s params = Inr (updates, s') \<Longrightarrow> s' \<noteq> None"
  unfolding keeps_state_def by (cases s') blast+

lemma init_store:
  "(\<exists>e. init ext h self params = (Inl e, h @ [h ! self])) \<or>
   (\<exists>params' s. init_fn (optimizer (h ! self)) params' = Inr s \<and>
      init ext h self params =
        (Inr (length h), h @ [(h ! self)\<lparr>opt_state := s, is_initialized := True\<rparr>]))"
proof (cases "annotation_map ext params")
  case (Inl e)
  then show ?thesis by (simp add: init_def copy_def)
next
  case (Inr params')
  show ?thesis
  proof (cases "init_fn (optimizer (h ! self)) params'")
    case (Inl e)
    with Inr show ?thesis by (simp add: init_def copy_def)
  next
    case s: (Inr s)
    with Inr have "init ext h self params =
        (Inr (length h), h @ [(h ! self)\<lparr>opt_state := s, is_initialized := True\<rparr>])"
      by (simp add: init_def copy_def)
    with s show ?thesis by blast
  qed
qed

lemma init_length: "length (snd (init ext h self params)) = Suc (length h)"
  using init_store [of ext h self params] by auto

lemma init_old: "a < length h \<Longrightarrow> snd (init ext h self params) ! a = h ! a"
  using init_store [of ext h self params] by (auto simp add: nth_append)

lemma init_new_ok:
  "fst (init ext h self params) = Inr m \<Longrightarrow>
     m = length h \<and> is_initialized (snd (init ext h self params) ! m) \<and>
     optimizer (snd (init ext h self params) ! m) = optimizer (h ! self) \<and>
     (keeps_state (optimizer (h ! self)) \<longrightarrow> opt_state (snd (init ext h self params) ! m) \<noteq> None)"
  using init_store [of ext h self params] keeps_state_init [of "optimizer (h ! self)"]
  by fastforce

lemma init_new_err:
  "fst (init ext h self params) = Inl e \<Longrightarrow>
     snd (init ext h self params) ! length h = h ! self"
  using init_store [of ext h self params] by auto

lemma apply_updates_store:
  "snd (apply_updates ext h self g p r) = h \<or>
   (\<exists>s opt_grads opt_params updates s'.
      opt_state (h ! self) = Some s \<and>
      update_fn (optimizer (h ! self)) opt_grads s opt_params = Inr (updates, s') \<and>
      snd (apply_updates ext h self g p r) = h[self := (h ! self)\<lparr>opt_state := s'\<rparr>])"
proof (cases "opt_state (h ! self)")
  case None
  then show ?thesis by (simp add: apply_updates_def)
next
  case (Some s)
  show ?thesis
  proof (cases "\<not> r \<and> p = None")
    case True
    with Some show ?thesis by (simp add: apply_updates_def)
  next
    case guard: False
    show ?thesis
    proof (cases "annotation_map ext g")
      case (Inl e)
      with Some guard show ?thesis by (auto simp add: apply_updates_def)
    next
      case og: (Inr opt_grads)
      show ?thesis
      proof (cases "annotation_map ext p")
        case (Inl e)
        with Some guard og show ?thesis by (auto simp add: apply_updates_def)
      next
        case op: (Inr opt_params)
        show ?thesis
        proof (cases "update_fn (optimizer (h ! self)) opt_grads s opt_params")
          case (Inl e)
          with Some guard og op show ?thesis by (auto simp add: apply_updates_def)
        next
          case (Inr ds)
          obtain updates s' where ds: "ds = (updates, s')" by (cases ds)
          with Inr Some guard og op
          have "snd (apply_updates ext h self g p r) = h[self := (h ! self)\<lparr>opt_state := s'\<rparr>]"
            by (auto simp add: apply_updates_def Let_def split: sum.splits)
          with Some Inr ds show ?thesis by blast
        qed
      qed
    qed
  qed
qed

lemma apply_updates_length:
  "length (snd (apply_updates ext h self g p r)) = length h"
  using apply_updates_store [of ext h self g p r] by auto

lemma apply_updates_nth:
  "a < length h \<Longrightarrow>
     is_initialized (snd (apply_updates ext h self g p r) ! a) = is_initialized (h ! a) \<and>
     optimizer (snd (apply_updates ext h self g p r) ! a) = optimizer (h ! a) \<and>
     (opt_state (h ! a) = None \<longrightarrow> opt_state (snd (apply_updates ext h self g p r) ! a) = None) \<and>
     (keeps_state (optimizer (h ! a)) \<longrightarrow> opt_state (h ! a) \<noteq> None \<longrightarrow>
        opt_state (snd (apply_updates ext h self g p r) ! a) \<noteq> None)"
proof -
  assume a: "a < length h"
  from apply_updates_store [of ext h self g p r] show ?thesis
  proof
    assume "snd (apply_updates ext h self g p r) = h"
    then show ?thesis by simp
  next
    assume "\<exists>s opt_grads opt_params updates s'.
      opt_state (h ! self) = Some s \<and>
      update_fn (optimizer (h ! self)) opt_grads s opt_params = Inr (updates, s') \<and>
      snd (apply_updates ext h self g p r) = h[self := (h ! self)\<lparr>opt_state := s'\<rparr>]"
    then obtain s opt_grads opt_params updates s' where
      s: "opt_state (h ! self) = Some s" and
      u: "update_fn (optimizer (h ! self)) opt_grads s opt_params = Inr (updates, s')" and
      h': "snd (apply_updates ext h self g p r) = h[self := (h ! self)\<lparr>opt_state := s'\<rparr>]"
      by blast
    show ?thesis
    proof (cases "a = self")
      case False
      with h' a show ?thesis by simp
    next
      case True
      have "keeps_state (optimizer (h ! self)) \<Longrightarrow> s' \<noteq> None"
        by (rule keeps_state_update [OF _ u])
      with True h' a s show ?thesis by auto
    qed
  qed
qed

lemma step_uninitialized:
  "uninitialized_without_state h \<Longrightarrow> uninitialized_without_state (step ext h c)"
proof (cases c)
  case (Construct tx)
  assume "uninitialized_without_state h"
  with Construct show ?thesis
    by (auto simp add: uninitialized_without_state_def new_Optimizer_def nth_append less_Suc_eq)
next
  case (Init self params)
  assume inv: "uninitialized_without_state h"
  show ?thesis
  proof (cases "self < length h")
    case False
    with Init inv show ?thesis by simp
  next
    case True
    let ?h' = "snd (init ext h self params)"
    have old: "\<And>a. a < length h \<Longrightarrow> ?h' ! a = h ! a" by (simp add: init_old)
    have new: "\<not> is_initialized (?h' ! length h) \<longrightarrow> opt_state (?h' ! length h) = None"
    proof (cases "fst (init ext h self params)")
      case (Inl e)
      then have "?h' ! length h = h ! self" by (rule init_new_err)
      with inv True show ?thesis by (simp add: uninitialized_without_state_def)
    next
      case (Inr m)
      with init_new_ok [of ext h self params m] show ?thesis by auto
    qed
    from inv old new Init True show ?thesis
      by (auto simp add: uninitialized_without_state_def init_length less_Suc_eq)
  qed
next
  case (Apply_updates self g p r)
  assume inv: "uninitialized_without_state h"
  show ?thesis
  proof (cases "self < length h")
    case False
    with Apply_updates inv show ?thesis by simp
  next
    case True
    with Apply_updates inv show ?thesis
      by (simp add: uninitialized_without_state_def apply_updates_length apply_updates_nth)
  qed
qed

lemma step_initialized:
  assumes inv: "initialized_with_state h"
    and tx: "\<And>tx. c = Construct tx \<Longrightarrow> keeps_state tx"
  shows "initialized_with_state (step ext h c)"
proof (cases c)
  case (Construct tx0)
  with inv tx show ?thesis
    by (auto simp add: initialized_with_state_def new_Optimizer_def nth_append less_Suc_eq)
next
  case (Init self params)
  show ?thesis
  proof (cases "self < length h")
    case False
    with Init inv show ?thesis by simp
  next
    case True
    let ?h' = "snd (init ext h self params)"
    have old: "\<And>a. a < length h \<Longrightarrow> ?h' ! a = h ! a" by (simp add: init_old)
    have k: "keeps_state (optimizer (h ! self))"
      using inv True by (simp add: initialized_with_state_def)
    have new: "keeps_state (optimizer (?h' ! length h)) \<and>
      (is_initialized (?h' ! length h) \<longrightarrow> opt_state (?h' ! length h) \<noteq> None)"
    proof (cases "fst (init ext h self params)")
      case (Inl e)
      then have "?h' ! length h = h ! self" by (rule init_new_err)
      with inv True show ?thesis by (simp add: initialized_with_state_def)
    next
      case (Inr m)
      with init_new_ok [of ext h self params m] k show ?thesis by auto
    qed
    from inv old new Init True show ?thesis
      by (auto simp add: initialized_with_state_def init_length less_Suc_eq)
  qed
next
  case (Apply_updates self g p r)
  show ?thesis
  proof (cases "self < length h")
    case False
    with Apply_updates inv show ?thesis by simp
  next
    case True
    with Apply_updates inv show ?thesis
      by (simp add: initialized_with_state_def apply_updates_length apply_updates_nth)
  qed
qed

lemma run_uninitialized: "uninitialized_without_state (run ext cs)"
proof (induction cs rule: rev_induct)
  case Nil
  show ?case by (simp add: run_def uninitialized_without_state_def)
next
  case (snoc c cs)
  then show ?case using step_uninitialized [of "run ext cs" ext c] by (simp add: run_def)
qed

lemma run_initialized:
  "(\<And>tx. Construct tx \<in> set cs \<Longrightarrow> keeps_state tx) \<Longrightarrow> initialized_with_state (run ext cs)"
proof (induction cs rule: rev_induct)
  case Nil
  show ?case by (simp add: run_def initialized_with_state_def)
next
  case (snoc c cs)
  have "initialized_with_state (run ext cs)" using snoc by simp
  moreover have "\<And>tx. c = Construct tx \<Longrightarrow> keeps_state tx" using snoc.prems by simp
  ultimately have "initialized_with_state (step ext (run ext cs) c)" by (rule step_initialized)
  then show ?case by (simp add: run_def)
qed

lemma scenario_run:
  "run plain [Construct (gradient_descent (1 / 2)), Init 0 (Some [(''w'', 0)]),
      Apply_updates 1 (Some [(''w'', 1)]) (Some [(''w'', 0)]) False] = scenario_ready"
  by (simp add: run_def new_Optimizer_def init_def copy_def apply_updates_def plain_simps
      gradient_descent_init gradient_descent_update plain_apply_updates_def plain_module_update_def
      scenario_ready_eq)

subsection \<open>Calling \<^verbatim>\<open>apply_updates\<close> before \<^verbatim>\<open>init\<close>\<close>

text \<open>
  Claim C4. On an adapter whose state is absent (\<^verbatim>\<open>init\<close> has not populated it),
  \<^verbatim>\<open>apply_updates\<close> fails with the assertion failure, whatever the gradients, the
  parameters and the flag are; the store is as it was.
\<close>

theorem apply_updates_before_init:
  "opt_state (h ! self) = None \<Longrightarrow>
     apply_updates ext h self grads params return_updates = (Inl AssertionError, h)"
  by (simp add: apply_updates_def)

theorem apply_updates_before_init_witness:
  "opt_state (scenario_new ! 0) = None \<and>
   apply_updates plain scenario_new 0 (Some [(''w'', 1)]) (Some [(''w'', 0)]) False =
     (Inl AssertionError, scenario_new)"
proof -
  have h: "opt_state (scenario_new ! 0) = None"
    by (simp add: scenario_new_eq)
  show ?thesis
    using h apply_updates_before_init [OF h, of plain "Some [(''w'', 1)]" "Some [(''w'', 0)]" False]
    by simp
qed

subsection \<open>What \<^verbatim>\<open>apply_updates\<close> returns and stores\<close>

text \<open>
  Claim C1. On an initialized adapter with state \<open>S0\<close>, \<^verbatim>\<open>apply_updates(g, p,
  return_updates=True)\<close> returns exactly the updates \<open>d\<close> that the wrapped \<^verbatim>\<open>update\<close>
  computes from the gradients, \<open>S0\<close> and the parameters, and stores the state \<open>S1\<close> of
  that same call in the adapter. The wrapped \<^verbatim>\<open>update\<close> receives the two trees as
  \<^verbatim>\<open>annotation_map\<close> hands them on. The updates come back through the reconstruction
  step \<^verbatim>\<open>module_update(grads, d)\<close>, which is not part of the sources; its contract is a
  hypothesis: given updates that have the shape of the gradients, it hands back those
  updates.
\<close>

theorem apply_updates_returns_raw_updates:
  assumes "self < length h"
    and "opt_state (h ! self) = Some S0"
    and "annotation_map ext g = Inr opt_grads"
    and "annotation_map ext p = Inr opt_params"
    and "update_fn (optimizer (h ! self)) opt_grads S0 opt_params = Inr (d, S1)"
    and "module_update ext g d = Inr d"
  shows "fst (apply_updates ext h self g p True) = Inr d \<and>
         opt_state (snd (apply_updates ext h self g p True) ! self) = S1 \<and>
         snd (apply_updates ext h self g p True) = h[self := (h ! self)\<lparr>opt_state := S1\<rparr>]"
  using assms by (simp add: apply_updates_def)

theorem apply_updates_returns_raw_updates_witness:
  "(1::nat) < length scenario_ready \<and>
   opt_state (scenario_ready ! 1) = Some () \<and>
   annotation_map plain (Some [(''w'', 1)]) = Inr (Some [(''w'', 1)]) \<and>
   annotation_map plain (Some [(''w'', 0)]) = Inr (Some [(''w'', 0)]) \<and>
   update_fn (optimizer (scenario_ready ! 1)) (Some [(''w'', 1)]) () (Some [(''w'', 0)]) =
     Inr (Some [(''w'', - 1 / 2)], Some ()) \<and>
   module_update plain (Some [(''w'', 1)]) (Some [(''w'', - 1 / 2)]) = Inr (Some [(''w'', - 1 / 2)]) \<and>
   fst (apply_updates plain scenario_ready 1 (Some [(''w'', 1)]) (Some [(''w'', 0)]) True) =
     Inr (Some [(''w'', - 1 / 2)]) \<and>
   opt_state (snd (apply_updates plain scenario_ready 1 (Some [(''w'', 1)]) (Some [(''w'', 0)]) True) ! 1) =
     Some ()"
proof -
  have h1: "(1::nat) < length scenario_ready"
    by (simp add: scenario_ready_eq)
  have h2: "opt_state (scenario_ready ! 1) = Some ()"
    by (simp add: scenario_ready_eq)
  have h3: "annotation_map plain (Some [(''w'', 1)]) = Inr (Some [(''w'', 1)])"
    by (simp add: plain_simps)
  have h4: "annotation_map plain (Some [(''w'', 0)]) = Inr (Some [(''w'', 0)])"
    by (simp add: plain_simps)
  have h5: "update_fn (optimizer (scenario_ready ! 1)) (Some [(''w'', 1)]) () (Some [(''w'', 0)]) =
     Inr (Some [(''w'', - 1 / 2)], Some ())"
    by (simp add: scenario_ready_eq gradient_descent_update)
  have h6: "module_update plain (Some [(''w'', 1)]) (Some [(''w'', - 1 / 2)]) =
     Inr (Some [(''w'', - 1 / 2)])"
    by (rule plain_module_update_same_keys) simp
  show ?thesis
    using h1 h2 h3 h4 h5 h6 apply_updates_returns_raw_updates [OF h1 h2 h3 h4 h5 h6]
    by simp
qed

text \<open>
  Claim C2. With parameters \<open>p\<close> given, the store after \<^verbatim>\<open>apply_updates(g, p,
  return_updates=False)\<close> is the store after the call with \<^verbatim>\<open>return_updates=True\<close>, in
  every case (failures included) and for every behaviour of the helpers. When the
  wrapped \<^verbatim>\<open>update\<close> returns \<open>(d, S1)\<close>, the call with \<^verbatim>\<open>return_updates=True\<close> returns \<open>d\<close>,
  and the call with \<^verbatim>\<open>return_updates=False\<close> returns \<open>p\<close> combined with that same \<open>d\<close> by
  \<^verbatim>\<open>optax.apply_updates\<close>; the state stored is \<open>S1\<close>. The contracts of the helpers that
  are not part of the sources are hypotheses: \<^verbatim>\<open>annotation_map\<close> hands the parameters on
  as they are, and \<^verbatim>\<open>module_update(grads, .)\<close> hands back a tree that has the shape of the
  gradients.
\<close>

theorem apply_updates_applies_same_updates:
  "snd (apply_updates ext h self g (Some p) False) = snd (apply_updates ext h self g (Some p) True) \<and>
   (opt_state (h ! self) = Some S0 \<longrightarrow>
    annotation_map ext g = Inr opt_grads \<longrightarrow>
    annotation_map ext (Some p) = Inr (Some p) \<longrightarrow>
    update_fn (optimizer (h ! self)) opt_grads S0 (Some p) = Inr (d, S1) \<longrightarrow>
    optax_apply_updates ext (Some p) d = Inr output \<longrightarrow>
    module_update ext g d = Inr d \<longrightarrow>
    module_update ext g output = Inr output \<longrightarrow>
      fst (apply_updates ext h self g (Some p) True) = Inr d \<and>
      fst (apply_updates ext h self g (Some p) False) = optax_apply_updates ext (Some p) d \<and>
      snd (apply_updates ext h self g (Some p) False) = h[self := (h ! self)\<lparr>opt_state := S1\<rparr>])"
  by (simp add: apply_updates_def Let_def split: option.splits sum.splits prod.splits)

theorem apply_updates_applies_same_updates_witness:
  "opt_state (scenario_ready ! 1) = Some () \<and>
   annotation_map plain (Some [(''w'', 1)]) = Inr (Some [(''w'', 1)]) \<and>
   annotation_map plain (Some [(''w'', 3)]) = Inr (Some [(''w'', 3)]) \<and>
   update_fn (optimizer (scenario_ready ! 1)) (Some [(''w'', 1)]) () (Some [(''w'', 3)]) =
     Inr (Some [(''w'', - 1 / 2)], Some ()) \<and>
   optax_apply_updates plain (Some [(''w'', 3)]) (Some [(''w'', - 1 / 2)]) = Inr (Some [(''w'', 5 / 2)]) \<and>
   module_update plain (Some [(''w'', 1)]) (Some [(''w'', - 1 / 2)]) = Inr (Some [(''w'', - 1 / 2)]) \<and>
   module_update plain (Some [(''w'', 1)]) (Some [(''w'', 5 / 2)]) = Inr (Some [(''w'', 5 / 2)]) \<and>
   fst (apply_updates plain scenario_ready 1 (Some [(''w'', 1)]) (Some [(''w'', 3)]) True) =
     Inr (Some [(''w'', - 1 / 2)]) \<and>
   fst (apply_updates plain scenario_ready 1 (Some [(''w'', 1)]) (Some [(''w'', 3)]) False) =
     Inr (Some [(''w'', 5 / 2)]) \<and>
   snd (apply_updates plain scenario_ready 1 (Some [(''w'', 1)]) (Some [(''w'', 3)]) False) =
     snd (apply_updates plain scenario_ready 1 (Some [(''w'', 1)]) (Some [(''w'', 3)]) True)"
proof -
  have h2: "opt_state (scenario_ready ! 1) = Some ()"
    by (simp add: scenario_ready_eq)
  have h3: "annotation_map plain (Some [(''w'', 1)]) = Inr (Some [(''w'', 1)])"
    by (simp add: plain_simps)
  have h4: "annotation_map plain (Some [(''w'', 3)]) = Inr (Some [(''w'', 3)])"
    by (simp add: plain_simps)
  have h5: "update_fn (optimizer (scenario_ready ! 1)) (Some [(''w'', 1)]) () (Some [(''w'', 3)]) =
     Inr (Some [(''w'', - 1 / 2)], Some ())"
    by (simp add: scenario_ready_eq gradient_descent_update)
  have h6: "optax_apply_updates plain (Some [(''w'', 3)]) (Some [(''w'', - 1 / 2)]) =
     Inr (Some [(''w'', 5 / 2)])"
    by (simp add: plain_simps plain_apply_updates_def)
  have h7: "module_update plain (Some [(''w'', 1)]) (Some [(''w'', - 1 / 2)]) =
     Inr (Some [(''w'', - 1 / 2)])"
    by (rule plain_module_update_same_keys) simp
  have h8: "module_update plain (Some [(''w'', 1)]) (Some [(''w'', 5 / 2)]) =
     Inr (Some [(''w'', 5 / 2)])"
    by (rule plain_module_update_same_keys) simp
  show ?thesis
    using h2 h3 h4 h5 h6 h7 h8
      apply_updates_applies_same_updates [of plain scenario_ready 1 "Some [(''w'', 1)]" "[(''w'', 3)]"
        "()" "Some [(''w'', 1)]" "Some [(''w'', - 1 / 2)]" "Some ()" "Some [(''w'', 5 / 2)]"]
    by simp
qed

subsection \<open>Missing parameters\<close>

text \<open>
  Claim C3, as amended. On an initialized adapter (state present), \<^verbatim>\<open>apply_updates\<close>
  with \<^verbatim>\<open>params=None\<close> and \<^verbatim>\<open>return_updates=False\<close> fails with the \<^verbatim>\<open>ValueError\<close> whose
  message is "params must be provided if updates are being applied", for every
  gradient tree.
\<close>

theorem missing_params_rejected:
  "opt_state (h ! self) = Some S0 \<Longrightarrow>
     fst (apply_updates ext h self grads None False) =
       Inl (ValueError ''params must be provided if updates are being applied'')"
  by (simp add: apply_updates_def)

theorem missing_params_rejected_witness:
  "opt_state (scenario_ready ! 1) = Some () \<and>
   fst (apply_updates plain scenario_ready 1 (Some [(''w'', 1)]) None False) =
     Inl (ValueError ''params must be provided if updates are being applied'')"
proof -
  have h: "opt_state (scenario_ready ! 1) = Some ()"
    by (simp add: scenario_ready_eq)
  show ?thesis
    using h missing_params_rejected [OF h, of plain "Some [(''w'', 1)]"] by simp
qed

text \<open>
  The claim C3 as it is written speaks of every adapter. On an adapter that has not
  been initialized the assertion comes first: the same call fails with the assertion
  failure, not with the \<^verbatim>\<open>ValueError\<close>.
\<close>

theorem missing_params_uninitialized_counterexample:
  "fst (apply_updates plain scenario_new 0 (Some [(''w'', 1)]) None False) = Inl AssertionError \<and>
   fst (apply_updates plain scenario_new 0 (Some [(''w'', 1)]) None False) \<noteq>
     Inl (ValueError ''params must be provided if updates are being applied'')"
  by (simp add: apply_updates_def scenario_new_eq)

text \<open>
  Claim C10. A call with \<^verbatim>\<open>params=None\<close> and \<^verbatim>\<open>return_updates=False\<close> ends at one of the
  two checks at the head of the method, before any helper or the wrapped \<^verbatim>\<open>update\<close> is
  called: the result does not depend on them, and the store, hence the optimizer state
  of the adapter, is as it was before the call.
\<close>

theorem missing_params_no_effect:
  "apply_updates ext h self grads None False =
     (if opt_state (h ! self) = None then Inl AssertionError
      else Inl (ValueError ''params must be provided if updates are being applied''), h)"
  by (simp add: apply_updates_def split: option.splits)

theorem missing_params_no_effect_witness:
  "apply_updates plain scenario_ready 1 (Some [(''w'', 1)]) None False =
     (Inl (ValueError ''params must be provided if updates are being applied''), scenario_ready) \<and>
   opt_state (scenario_ready ! 1) = Some ()"
proof -
  have h: "opt_state (scenario_ready ! 1) = Some ()"
    by (simp add: scenario_ready_eq)
  show ?thesis
    using h missing_params_no_effect [of plain scenario_ready 1 "Some [(''w'', 1)]"] by simp
qed

subsection \<open>What \<^verbatim>\<open>init\<close> returns and what it leaves alone\<close>

text \<open>
  Claim C5. \<^verbatim>\<open>init(P)\<close> returns a new object (its address lies beyond the store of
  before the call), whose \<^verbatim>\<open>initialized\<close> is true, whose state is what the wrapped
  \<^verbatim>\<open>init\<close> returns, and which wraps the same transformation as the receiver. The wrapped
  \<^verbatim>\<open>init\<close> is given the parameter tree as \<^verbatim>\<open>annotation_map\<close> hands it on; the theorem
  holds for every behaviour of that helper.
\<close>

theorem init_returns_initialized_copy:
  assumes "annotation_map ext P = Inr P'"
    and "init_fn (optimizer (h ! self)) P' = Inr s"
  shows "fst (init ext h self P) = Inr (length h) \<and>
         length (snd (init ext h self P)) = Suc (length h) \<and>
         initialized (snd (init ext h self P) ! length h) \<and>
         opt_state (snd (init ext h self P) ! length h) = s \<and>
         optimizer (snd (init ext h self P) ! length h) = optimizer (h ! self)"
  using assms by (simp add: init_def copy_def initialized_def)

theorem init_returns_initialized_copy_witness:
  "annotation_map plain (Some [(''w'', 0)]) = Inr (Some [(''w'', 0)]) \<and>
   init_fn (optimizer (scenario_new ! 0)) (Some [(''w'', 0)]) = Inr (Some ()) \<and>
   fst (init plain scenario_new 0 (Some [(''w'', 0)])) = Inr 1 \<and>
   initialized (snd (init plain scenario_new 0 (Some [(''w'', 0)])) ! 1) \<and>
   opt_state (snd (init plain scenario_new 0 (Some [(''w'', 0)])) ! 1) = Some ()"
proof -
  have h1: "annotation_map plain (Some [(''w'', 0)]) = Inr (Some [(''w'', 0)])"
    by (simp add: plain_simps)
  have h2: "init_fn (optimizer (scenario_new ! 0)) (Some [(''w'', 0)]) = Inr (Some ())"
    by (simp add: scenario_new_eq gradient_descent_init)
  have l: "length scenario_new = 1"
    by (simp add: scenario_new_eq)
  show ?thesis
    using h1 h2 l init_returns_initialized_copy [OF h1 h2] by simp
qed

text \<open>
  Claim C6. \<^verbatim>\<open>init\<close> leaves its receiver as it was: the object at the receiver's address
  is the same after the call, field by field (state, initialized flag, wrapped
  transformation), whether the call returns or raises.
\<close>

theorem init_leaves_receiver:
  "self < length h \<Longrightarrow>
     snd (init ext h self params) ! self = h ! self \<and>
     opt_state (snd (init ext h self params) ! self) = opt_state (h ! self) \<and>
     initialized (snd (init ext h self params) ! self) = initialized (h ! self) \<and>
     optimizer (snd (init ext h self params) ! self) = optimizer (h ! self)"
  by (simp add: init_old)

theorem init_leaves_receiver_witness:
  "(0::nat) < length scenario_new \<and>
   snd (init plain scenario_new 0 (Some [(''w'', 0)])) ! 0 = scenario_new ! 0 \<and>
   opt_state (snd (init plain scenario_new 0 (Some [(''w'', 0)])) ! 0) = None \<and>
   \<not> initialized (snd (init plain scenario_new 0 (Some [(''w'', 0)])) ! 0) \<and>
   fst (init plain scenario_new 0 (Some [(''w'', 0)])) = Inr 1"
proof -
  have h: "(0::nat) < length scenario_new"
    by (simp add: scenario_new_eq)
  have r: "fst (init plain scenario_new 0 (Some [(''w'', 0)])) = Inr 1"
    by (simp add: scenario_new_eq init_def copy_def plain_simps gradient_descent_init)
  have n: "opt_state (scenario_new ! 0) = None" "\<not> initialized (scenario_new ! 0)"
    by (simp_all add: scenario_new_eq initialized_def)
  show ?thesis
    using h r n init_leaves_receiver [OF h, of plain "Some [(''w'', 0)]"] by simp
qed

subsection \<open>The gradient descent scenario\<close>

text \<open>
  Claim C8. Wrap plain gradient descent with a fixed step size; \<^verbatim>\<open>init({"w": 0.0})\<close> and
  then \<^verbatim>\<open>apply_updates({"w": 1.0}, {"w": 0.0})\<close> returns \<^verbatim>\<open>{"w": -step_size}\<close>, and the
  state of the adapter is the empty tuple before and after the call. Numbers are reals
  here; on these inputs the two operations (\<open>- step_size * 1\<close> and \<open>0 + x\<close>) are exact
  in floating point as well.
\<close>

theorem gradient_descent_scenario:
  "(let (a, h0) = new_Optimizer [] (gradient_descent step_size);
        (r, h1) = init plain h0 a (Some [(''w'', 0)])
    in case r of
         Inl e \<Rightarrow> False
       | Inr m \<Rightarrow>
           (let (out, h2) = apply_updates plain h1 m (Some [(''w'', 1)]) (Some [(''w'', 0)]) False
            in out = Inr (Some [(''w'', - step_size)]) \<and>
               opt_state (h1 ! m) = Some () \<and> opt_state (h2 ! m) = Some ()))"
  by (simp add: new_Optimizer_def init_def copy_def apply_updates_def plain_simps
      gradient_descent_init gradient_descent_update plain_apply_updates_def plain_module_update_def)

theorem gradient_descent_scenario_witness:
  "fst (apply_updates plain scenario_ready 1 (Some [(''w'', 1)]) (Some [(''w'', 0)]) False) =
     Inr (Some [(''w'', - (1 / 2))]) \<and>
   opt_state (scenario_ready ! 1) = Some () \<and>
   opt_state (snd (apply_updates plain scenario_ready 1 (Some [(''w'', 1)]) (Some [(''w'', 0)]) False) ! 1) =
     Some ()"
proof -
  have r: "init plain scenario_new 0 (Some [(''w'', 0)]) = (Inr 1, scenario_ready)"
    by (simp add: scenario_ready_eq scenario_new_eq init_def copy_def plain_simps
        gradient_descent_init)
  have n: "new_Optimizer [] (gradient_descent (1 / 2)) = (0, scenario_new)"
    by (simp add: scenario_new_eq new_Optimizer_def)
  show ?thesis
    using gradient_descent_scenario [of "1 / 2"]
    by (simp add: n r split: prod.splits)
qed

subsection \<open>The state and the initialized flag\<close>

text \<open>
  Claim C9, as amended. After construction and after any sequence of \<^verbatim>\<open>init\<close> and
  \<^verbatim>\<open>apply_updates\<close> calls, every adapter whose \<^verbatim>\<open>initialized\<close> is false has state \<^verbatim>\<open>None\<close>;
  and when the wrapped transformations never return \<^verbatim>\<open>None\<close> as a state, the state of
  an adapter is \<^verbatim>\<open>None\<close> exactly when its \<^verbatim>\<open>initialized\<close> is false. A newly constructed
  adapter has state \<^verbatim>\<open>None\<close> and \<^verbatim>\<open>initialized\<close> false, and the adapter that \<^verbatim>\<open>init\<close> returns
  has \<^verbatim>\<open>initialized\<close> true.
\<close>

theorem state_absent_iff_uninitialized:
  "a < length (run ext cs) \<Longrightarrow>
     (\<not> initialized (run ext cs ! a) \<longrightarrow> opt_state (run ext cs ! a) = None) \<and>
     ((\<forall>tx. Construct tx \<in> set cs \<longrightarrow> keeps_state tx) \<longrightarrow>
        (opt_state (run ext cs ! a) = None) = (\<not> initialized (run ext cs ! a))) \<and>
     opt_state (snd (new_Optimizer h tx0) ! fst (new_Optimizer h tx0)) = None \<and>
     \<not> initialized (snd (new_Optimizer h tx0) ! fst (new_Optimizer h tx0)) \<and>
     (fst (init ext h self params) = Inr m \<longrightarrow> initialized (snd (init ext h self params) ! m))"
proof -
  assume a: "a < length (run ext cs)"
  have 1: "\<not> initialized (run ext cs ! a) \<longrightarrow> opt_state (run ext cs ! a) = None"
    using run_uninitialized [of ext cs] a
    by (simp add: uninitialized_without_state_def initialized_def)
  have 2: "(\<forall>tx. Construct tx \<in> set cs \<longrightarrow> keeps_state tx) \<longrightarrow>
        (opt_state (run ext cs ! a) = None) = (\<not> initialized (run ext cs ! a))"
  proof
    assume "\<forall>tx. Construct tx \<in> set cs \<longrightarrow> keeps_state tx"
    then have "initialized_with_state (run ext cs)" by (simp add: run_initialized)
    with a have "initialized (run ext cs ! a) \<longrightarrow> opt_state (run ext cs ! a) \<noteq> None"
      by (simp add: initialized_with_state_def initialized_def)
    with 1 show "(opt_state (run ext cs ! a) = None) = (\<not> initialized (run ext cs ! a))"
      by blast
  qed
  have 3: "opt_state (snd (new_Optimizer h tx0) ! fst (new_Optimizer h tx0)) = None \<and>
     \<not> initialized (snd (new_Optimizer h tx0) ! fst (new_Optimizer h tx0))"
    by (simp add: new_Optimizer_def initialized_def)
  have 4: "fst (init ext h self params) = Inr m \<longrightarrow> initialized (snd (init ext h self params) ! m)"
    using init_new_ok [of ext h self params m] by (simp add: initialized_def)
  from 1 2 3 4 show ?thesis by blast
qed

theorem state_absent_iff_uninitialized_witness:
  "run plain [Construct (gradient_descent (1 / 2)), Init 0 (Some [(''w'', 0)]),
      Apply_updates 1 (Some [(''w'', 1)]) (Some [(''w'', 0)]) False] = scenario_ready \<and>
   (1::nat) < length scenario_ready \<and>
   keeps_state (gradient_descent (1 / 2)) \<and>
   initialized (scenario_ready ! 1) \<and> opt_state (scenario_ready ! 1) \<noteq> None \<and>
   \<not> initialized (scenario_ready ! 0) \<and> opt_state (scenario_ready ! 0) = None"
proof -
  have l: "(1::nat) < length (run plain [Construct (gradient_descent (1 / 2)),
      Init 0 (Some [(''w'', 0)]), Apply_updates 1 (Some [(''w'', 1)]) (Some [(''w'', 0)]) False])"
    by (subst scenario_run) (simp add: scenario_ready_eq)
  have i: "initialized (scenario_ready ! 1)" "\<not> initialized (scenario_ready ! 0)"
    "opt_state (scenario_ready ! 0) = None"
    by (simp_all add: scenario_ready_eq initialized_def)
  show ?thesis
    using l i keeps_state_gradient_descent [of "1 / 2"]
      state_absent_iff_uninitialized [OF l, of "[]" "gradient_descent (1 / 2)" 0
        "Some [(''w'', 0)]" 1]
    unfolding scenario_run by simp
qed

text \<open>
  The claim C9 as it is written fails in two ways. \<^verbatim>\<open>init\<close> populates the copy it returns,
  not the adapter it is called on: after \<^verbatim>\<open>init\<close> has been called on a new adapter and has
  returned, the state of that adapter is still \<^verbatim>\<open>None\<close>. And the adapter stores what the
  wrapped \<^verbatim>\<open>init\<close> returns as it comes: around a transformation whose \<^verbatim>\<open>init\<close> returns
  \<^verbatim>\<open>None\<close>, the adapter that \<^verbatim>\<open>init\<close> returns has \<^verbatim>\<open>initialized\<close> true and state \<^verbatim>\<open>None\<close>.
\<close>

theorem state_absent_until_init_counterexample:
  "fst (init plain scenario_new 0 (Some [(''w'', 0)])) = Inr 1 \<and>
   opt_state (snd (init plain scenario_new 0 (Some [(''w'', 0)])) ! 0) = None \<and>
   fst (init plain scenario_None 0 (Some [(''w'', 0)])) = Inr 1 \<and>
   initialized (snd (init plain scenario_None 0 (Some [(''w'', 0)])) ! 1) \<and>
   opt_state (snd (init plain scenario_None 0 (Some [(''w'', 0)])) ! 1) = None"
  by (simp add: scenario_new_eq scenario_None_eq init_def copy_def plain_simps
      gradient_descent_init stateless_None_def initialized_def)

end
